theory Spec2Isabelle
  imports Main "HOL-Library.Word"
begin

section \<open>Bytes, slices and \<open>struct.unpack\<close>\<close>

text \<open>
  The converter works on Python \<open>bytes\<close> objects and unbounded Python integers. A byte
  is an 8-bit word, a buffer is a list of bytes, and every integer the code computes with
  (positions, sizes, counts, tags) is a natural number: \<open>struct.unpack('<I', ...)\<close>
  yields a value in \<open>0 ..< 2 ^ 32\<close> and the code only ever adds such values.
\<close>

type_synonym byte = "8 word"

datatype error =
    StructError        \<comment> \<open>\<open>struct.error\<close>: the buffer handed to \<open>unpack\<close> has the wrong size\<close>
  | IndexError         \<comment> \<open>list index out of range\<close>
  | UnicodeEncodeError \<comment> \<open>a character that the encoding of a text stream does not have\<close>
  | ValueError string  \<comment> \<open>\<open>raise ValueError(msg)\<close>\<close>

text \<open>Python's \<open>data[a:b]\<close> for non-negative \<open>a\<close> and \<open>b\<close>: it clamps, it never raises.\<close>

definition slice :: "'a list \<Rightarrow> nat \<Rightarrow> nat \<Rightarrow> 'a list" where
  "slice data a b = drop a (take b data)"

text \<open>The little-endian value of a byte string.\<close>

fun le_nat :: "byte list \<Rightarrow> nat" where
  "le_nat [] = 0"
| "le_nat (b # bs) = unat b + 256 * le_nat bs"

text \<open>\<open>struct.unpack('<I', bs)[0]\<close>: exactly four bytes, or \<open>struct.error\<close>.\<close>

definition unpack_I :: "byte list \<Rightarrow> error + nat" where
  "unpack_I bs = (if length bs \<noteq> 4 then Inl StructError else Inr (le_nat bs))"

text \<open>
  A 32-bit float is represented by the bit pattern it is decoded from; its IEEE-754 reading
  and its decimal formatting are not modelled. \<open>struct.unpack('<fff', bs)\<close> wants exactly
  twelve bytes and returns three floats.
\<close>

type_synonym float32 = "32 word"
type_synonym vertex = "float32 \<times> float32 \<times> float32"

definition unpack_f :: "byte list \<Rightarrow> float32" where
  "unpack_f bs = word_of_nat (le_nat bs)"

definition unpack_fff :: "byte list \<Rightarrow> error + vertex" where
  "unpack_fff bs =
     (if length bs \<noteq> 12 then Inl StructError
      else Inr (unpack_f (slice bs 0 4), unpack_f (slice bs 4 8), unpack_f (slice bs 8 12)))"

section \<open>The converter object and the container reader\<close>

text \<open>
  A chunk is the tuple \<open>(tag, idx, pos, raw_size, chunk_data)\<close> that \<open>read_nr_file\<close>
  appends; the projections below are the tuple indices the code uses.
\<close>

type_synonym chunk = "nat \<times> nat \<times> nat \<times> nat \<times> byte list"

definition chunk_tag :: "chunk \<Rightarrow> nat" where
  "chunk_tag c = fst c"

definition chunk_raw_size :: "chunk \<Rightarrow> nat" where
  "chunk_raw_size c = fst (snd (snd (snd c)))"

definition chunk_data :: "chunk \<Rightarrow> byte list" where
  "chunk_data c = snd (snd (snd (snd c)))"

record converter =
  chunks :: "chunk list"
  nr_version :: nat

definition init :: converter where
  "init = \<lparr>chunks = [], nr_version = 0\<rparr>"

definition NRIP :: nat where
  "NRIP = 0x5049524E"

definition VERT :: nat where
  "VERT = 0x54524556"

definition INDX :: nat where
  "INDX = 0x58444E49"

text \<open>
  The \<open>while pos < len(data)\<close> loop of \<open>read_nr_file\<close>. Nothing in the loop bounds the
  number of iterations, so the loop is a partial function: \<open>None\<close> is a run that never
  leaves the loop. A run that does leave it returns the exception raised, if any, and the
  converter with the chunks appended so far.
\<close>

partial_function (option) read_chunks ::
  "byte list \<Rightarrow> nat \<Rightarrow> converter \<Rightarrow> ((error + unit) \<times> converter) option" where
  "read_chunks data pos self =
     (if pos < length data then
        if pos + 12 > length data then Some (Inr (), self)
        else
          case unpack_I (slice data pos (pos + 4)) of
            Inl e \<Rightarrow> Some (Inl e, self)
          | Inr raw_size \<Rightarrow>
             (case unpack_I (slice data (pos + 4) (pos + 8)) of
                Inl e \<Rightarrow> Some (Inl e, self)
              | Inr tag \<Rightarrow>
                 (case unpack_I (slice data (pos + 8) (pos + 12)) of
                    Inl e \<Rightarrow> Some (Inl e, self)
                  | Inr idx \<Rightarrow>
                      let chunk_data =
                        (if raw_size > 12 then slice data (pos + 12) (pos + raw_size) else [])
                      in read_chunks data (pos + raw_size)
                           (self\<lparr>chunks := chunks self @
                              [(tag, idx, pos, raw_size, chunk_data)]\<rparr>)))
      else Some (Inr (), self))"

declare read_chunks.simps [code]

text \<open>
  \<open>read_nr_file\<close>, from the bytes \<open>f.read()\<close> returned: the magic check, the version
  (the warning it may print is ASCII text on the console), then the chunk loop
  from position 16.
\<close>

definition read_nr_file ::
  "byte list \<Rightarrow> converter \<Rightarrow> ((error + unit) \<times> converter) option" where
  "read_nr_file data self =
     (case unpack_I (slice data 0 4) of
        Inl e \<Rightarrow> Some (Inl e, self)
      | Inr magic \<Rightarrow>
        if magic \<noteq> NRIP
        then Some (Inl (ValueError ''Not a valid NinjaRipper 2 file (missing NRIP magic)''), self)
        else
          (case unpack_I (slice data 4 8) of
             Inl e \<Rightarrow> Some (Inl e, self)
           | Inr version \<Rightarrow> read_chunks data 16 (self\<lparr>nr_version := version\<rparr>)))"

definition find_chunks :: "converter \<Rightarrow> nat \<Rightarrow> chunk list" where
  "find_chunks self tag = filter (\<lambda>chunk. chunk_tag chunk = tag) (chunks self)"

section \<open>The geometry decoder\<close>

text \<open>
  The \<open>for i in range(vertex_count)\<close> loop of \<open>parse_vertex_data\<close>: the third
  argument counts the iterations that remain, \<open>pos\<close> is the cursor, which moves by
  \<open>vertex_size\<close>, and \<open>vertices\<close> is the list built so far.
\<close>

fun vertex_loop ::
  "byte list \<Rightarrow> nat \<Rightarrow> nat \<Rightarrow> nat \<Rightarrow> vertex list \<Rightarrow> error + vertex list" where
  "vertex_loop vert_data vertex_size 0 pos vertices = Inr vertices"
| "vertex_loop vert_data vertex_size (Suc n) pos vertices =
     (if pos + 12 > length vert_data then Inr vertices
      else
        case unpack_fff (slice vert_data pos (pos + 12)) of
          Inl e \<Rightarrow> Inl e
        | Inr v \<Rightarrow> vertex_loop vert_data vertex_size n (pos + vertex_size) (vertices @ [v]))"

definition parse_vertex_data :: "byte list \<Rightarrow> error + vertex list" where
  "parse_vertex_data vert_data =
     (if length vert_data < 8 then Inr []
      else
        case unpack_I (slice vert_data 0 4) of
          Inl e \<Rightarrow> Inl e
        | Inr vertex_count \<Rightarrow>
           (case unpack_I (slice vert_data 4 8) of
              Inl e \<Rightarrow> Inl e
            | Inr vertex_size \<Rightarrow> vertex_loop vert_data vertex_size vertex_count 8 []))"

text \<open>The \<open>for i in range(index_count)\<close> loop of \<open>parse_index_data\<close>.\<close>

fun index_loop :: "byte list \<Rightarrow> nat \<Rightarrow> nat \<Rightarrow> nat list \<Rightarrow> error + nat list" where
  "index_loop indx_data 0 pos indices = Inr indices"
| "index_loop indx_data (Suc n) pos indices =
     (if pos + 4 > length indx_data then Inr indices
      else
        case unpack_I (slice indx_data pos (pos + 4)) of
          Inl e \<Rightarrow> Inl e
        | Inr index \<Rightarrow> index_loop indx_data n (pos + 4) (indices @ [index]))"

definition parse_index_data :: "byte list \<Rightarrow> error + nat list" where
  "parse_index_data indx_data =
     (if length indx_data < 8 then Inr []
      else
        case unpack_I (slice indx_data 0 4) of
          Inl e \<Rightarrow> Inl e
        | Inr index_count \<Rightarrow> index_loop indx_data index_count 8 [])"

section \<open>Conversion\<close>

text \<open>
  What \<open>convert_to_obj\<close> writes to the output file, in the order of the \<open>write\<close>
  calls: literal text, one item for each vertex line (the \<open>.6f\<close> formatting of the floats
  is not modelled) and one item for each face line, holding the three 1-based numbers.
\<close>

datatype obj_item =
    Text string
  | VertexLine vertex
  | FaceLine nat nat nat

definition newline :: string where
  "newline = [CHR 0x0A]"

text \<open>\<open>os.path.basename\<close> on a POSIX path: what follows the last slash.\<close>

definition basename :: "string \<Rightarrow> string" where
  "basename p = rev (takeWhile (\<lambda>c. c \<noteq> CHR ''/'') (rev p))"

text \<open>
  \<open>tag_to_string\<close>: the four bytes of the tag as characters, least significant first.
\<close>

definition tag_to_string :: "nat \<Rightarrow> string" where
  "tag_to_string tag = map (\<lambda>i. char_of ((tag div 2 ^ (8 * i)) mod 256)) [0..<4]"

text \<open>
  \<open>print\<close> and \<open>obj_file.write\<close> encode their text, and raise
  \<open>UnicodeEncodeError\<close> at a character that the encoding of the stream lacks. Which
  characters \<open>sys.stdout\<close> and the output file can encode depends on where the script
  runs, so both sets are parameters of the model; ASCII characters are taken to be
  encodable everywhere. A Python string is modelled by an Isabelle string, whose characters
  are the code points below 256.
\<close>

record environment =
  stdout_encodes :: "char \<Rightarrow> bool"
  file_encodes :: "char \<Rightarrow> bool"

fun encodable :: "(char \<Rightarrow> bool) \<Rightarrow> string \<Rightarrow> bool" where
  "encodable enc [] = True"
| "encodable enc (c # cs) = ((of_char c < (128 :: nat) \<or> enc c) \<and> encodable enc cs)"

text \<open>Whether \<open>print(s)\<close> returns or raises; what appears on the console is not modelled.\<close>

definition print_text :: "(char \<Rightarrow> bool) \<Rightarrow> string \<Rightarrow> error + unit" where
  "print_text enc s = (if encodable enc s then Inr () else Inl UnicodeEncodeError)"

text \<open>
  The loop of lines 110 to 112, which prints one line for each chunk with the tag as text.
  The rest of such a line is ASCII.
\<close>

fun print_chunks :: "(char \<Rightarrow> bool) \<Rightarrow> chunk list \<Rightarrow> error + unit" where
  "print_chunks enc [] = Inr ()"
| "print_chunks enc (chunk # rest) =
     (case print_text enc (tag_to_string (chunk_tag chunk)) of
        Inl e \<Rightarrow> Inl e
      | Inr u \<Rightarrow> print_chunks enc rest)"

text \<open>\<open>xs[i]\<close> for a non-negative \<open>i\<close>.\<close>

definition list_index :: "'a list \<Rightarrow> nat \<Rightarrow> error + 'a" where
  "list_index xs i = (if i < length xs then Inr (xs ! i) else Inl IndexError)"

text \<open>Lines 125 and 126: the position of the vertex chunk to use, and the chunk there.\<close>

definition select_vert_chunk :: "chunk list \<Rightarrow> bool \<Rightarrow> error + chunk" where
  "select_vert_chunk vert_chunks use_world_space =
     (let vert_chunk_idx = (if use_world_space \<and> length vert_chunks > 1 then 1 else 0)
      in list_index vert_chunks vert_chunk_idx)"

text \<open>
  The loop \<open>for i in range(0, len(indices), 3)\<close> that writes the faces, from position
  \<open>i\<close> on.
\<close>

function face_lines :: "nat list \<Rightarrow> nat \<Rightarrow> obj_item list" where
  "face_lines indices i =
     (if i < length indices then
        (if i + 2 < length indices
         then [FaceLine (indices ! i + 1) (indices ! (i + 1) + 1) (indices ! (i + 2) + 1)]
         else []) @ face_lines indices (i + 3)
      else [])"
  by pat_completeness auto
termination
  by (relation "measure (\<lambda>(indices, i). length indices - i)") auto

declare face_lines.simps [simp del]

text \<open>The three comment lines written first (lines 137 to 139).\<close>

definition obj_header :: "string \<Rightarrow> bool \<Rightarrow> obj_item list" where
  "obj_header nr_file_path use_world_space =
     [Text (''# Converted from NinjaRipper 2 .nr file'' @ newline),
      Text (''# Original file: '' @ basename nr_file_path @ newline),
      Text (''# Vertex space: '' @ (if use_world_space then ''World'' else ''Local'')
            @ newline @ newline)]"

text \<open>
  Lines 115 to 150, on the chunks that were read: every step that can raise for a reason
  other than the encoding of the output comes before the output file is opened, so the
  result is either the exception or the items the \<open>write\<close> calls are given, in order.
\<close>

definition build_obj :: "converter \<Rightarrow> string \<Rightarrow> bool \<Rightarrow> error + obj_item list" where
  "build_obj self nr_file_path use_world_space =
     (let vert_chunks = find_chunks self VERT;
          indx_chunks = find_chunks self INDX
      in
        if vert_chunks = [] \<or> indx_chunks = []
        then Inl (ValueError ''No vertex or index data found in file'')
        else
          case select_vert_chunk vert_chunks use_world_space of
            Inl e \<Rightarrow> Inl e
          | Inr vert_chunk \<Rightarrow>
             (case list_index indx_chunks 0 of
                Inl e \<Rightarrow> Inl e
              | Inr indx_chunk \<Rightarrow>
                 (case parse_vertex_data (chunk_data vert_chunk) of
                    Inl e \<Rightarrow> Inl e
                  | Inr vertices \<Rightarrow>
                     (case parse_index_data (chunk_data indx_chunk) of
                        Inl e \<Rightarrow> Inl e
                      | Inr indices \<Rightarrow>
                          Inr (obj_header nr_file_path use_world_space
                               @ map VertexLine vertices
                               @ [Text newline]
                               @ face_lines indices 0)))))"

text \<open>
  The \<open>write\<close> calls inside the \<open>with\<close> block, one for each item: the first item
  that the file cannot encode raises, and the file keeps what was written before it. Vertex
  and face lines are ASCII. The result is the exception, if any, and the items in the file.
\<close>

fun writable :: "(char \<Rightarrow> bool) \<Rightarrow> obj_item \<Rightarrow> bool" where
  "writable enc (Text s) = encodable enc s"
| "writable enc (VertexLine v) = True"
| "writable enc (FaceLine a b c) = True"

fun write_items :: "(char \<Rightarrow> bool) \<Rightarrow> obj_item list \<Rightarrow> error option \<times> obj_item list" where
  "write_items enc [] = (None, [])"
| "write_items enc (item # rest) =
     (if writable enc item
      then (case write_items enc rest of (e, written) \<Rightarrow> (e, item # written))
      else (Some UnicodeEncodeError, []))"

text \<open>
  The outcome of one call of \<open>convert_to_obj\<close>: the boolean it returns, the exception
  its handler caught and printed (if any), the items written to the output file (\<open>None\<close>
  when the file was never opened) and the converter object afterwards.
\<close>

record outcome =
  success :: bool
  diagnostic :: "error option"
  obj_file :: "obj_item list option"
  conv :: converter

text \<open>
  \<open>convert_to_obj\<close> on an input file holding \<open>data\<close>, in the order of the code: the
  reset and the read, the listing of the chunks (lines 109 to 112), the geometry (lines 115
  to 133), the output file (lines 136 to 150) and the closing messages (lines 152 and 153).
  Every exception ends in the handler of line 155, which returns \<open>False\<close>; its own
  messages are ASCII or go to \<open>stderr\<close>. The result is \<open>None\<close> when the chunk loop of
  \<open>read_nr_file\<close> never ends. Opening the two files is taken to succeed.
\<close>

definition convert_to_obj ::
  "environment \<Rightarrow> byte list \<Rightarrow> string \<Rightarrow> string \<Rightarrow> bool \<Rightarrow> converter \<Rightarrow> outcome option"
  where
  "convert_to_obj env data nr_file_path obj_file_path use_world_space self =
     (case read_nr_file data (self\<lparr>chunks := []\<rparr>) of
        None \<Rightarrow> None
      | Some (Inl e, self') \<Rightarrow>
          Some \<lparr>success = False, diagnostic = Some e, obj_file = None, conv = self'\<rparr>
      | Some (Inr u, self') \<Rightarrow>
         (case print_chunks (stdout_encodes env) (chunks self') of
            Inl e \<Rightarrow>
              Some \<lparr>success = False, diagnostic = Some e, obj_file = None, conv = self'\<rparr>
          | Inr u' \<Rightarrow>
             (case build_obj self' nr_file_path use_world_space of
                Inl e \<Rightarrow>
                  Some \<lparr>success = False, diagnostic = Some e, obj_file = None, conv = self'\<rparr>
              | Inr items \<Rightarrow>
                 (case write_items (file_encodes env) items of
                    (Some e, written) \<Rightarrow>
                      Some \<lparr>success = False, diagnostic = Some e, obj_file = Some written,
                            conv = self'\<rparr>
                  | (None, written) \<Rightarrow>
                     (case print_text (stdout_encodes env)
                             (''Successfully converted '' @ nr_file_path @ '' to ''
                              @ obj_file_path) of
                        Inl e \<Rightarrow>
                          Some \<lparr>success = False, diagnostic = Some e,
                                obj_file = Some written, conv = self'\<rparr>
                      | Inr u'' \<Rightarrow>
                          Some \<lparr>success = True, diagnostic = None,
                                obj_file = Some written, conv = self'\<rparr>)))))"

text \<open>
  What a caller can see of a conversion: the returned flag, the diagnostic, the output file
  and the chunk list the converter is left with.
\<close>

definition observable ::
  "outcome \<Rightarrow> bool \<times> error option \<times> obj_item list option \<times> chunk list" where
  "observable r = (success r, diagnostic r, obj_file r, chunks (conv r))"

section \<open>Reference definitions\<close>

text \<open>
  The definitions of this section are not taken from the code: they say in closed form what
  the decoders are expected to compute, and which files count as well formed. The theorems
  below compare the code with them.
\<close>

text \<open>The vertex whose three floats start at offset \<open>off\<close> of the payload.\<close>

definition vertex_at :: "byte list \<Rightarrow> nat \<Rightarrow> vertex" where
  "vertex_at payload off =
     (unpack_f (slice payload off (off + 4)),
      unpack_f (slice payload (off + 4) (off + 8)),
      unpack_f (slice payload (off + 8) (off + 12)))"

text \<open>
  Vertices \<open>i = 0, 1, ...\<close> taken while \<open>i < count\<close> and
  \<open>8 + i * stride + 12 \<le> length payload\<close>, vertex \<open>i\<close> read at \<open>8 + i * stride\<close>.
\<close>

definition decodeVertices_ref :: "byte list \<Rightarrow> vertex list" where
  "decodeVertices_ref payload =
     (if length payload < 8 then []
      else
        let count = le_nat (slice payload 0 4);
            stride = le_nat (slice payload 4 8)
        in map (\<lambda>i. vertex_at payload (8 + i * stride))
             (takeWhile (\<lambda>i. 8 + i * stride + 12 \<le> length payload) [0..<count]))"

text \<open>
  The 32-bit values at offsets 8, 12, 16, ..., taken while fewer than \<open>count\<close> have been
  read and the next four bytes fit in the payload. The bytes 4 to 7 do not occur.
\<close>

definition decodeIndices_ref :: "byte list \<Rightarrow> nat list" where
  "decodeIndices_ref payload =
     (let count = le_nat (slice payload 0 4)
      in map (\<lambda>i. le_nat (slice payload (8 + 4 * i) (8 + 4 * i + 4)))
           (takeWhile (\<lambda>i. 8 + 4 * i + 4 \<le> length payload) [0..<count]))"

text \<open>The payload with its topology field (bytes 4 to 7) replaced by \<open>t\<close>.\<close>

definition with_topology :: "byte list \<Rightarrow> byte list \<Rightarrow> byte list" where
  "with_topology payload t = take 4 payload @ t @ drop 8 payload"

text \<open>A sequence cut into consecutive triples; fewer than three elements at the end are dropped.\<close>

fun triples :: "'a list \<Rightarrow> ('a \<times> 'a \<times> 'a) list" where
  "triples (a # b # c # rest) = (a, b, c) # triples rest"
| "triples rest = []"

definition face_of :: "nat \<times> nat \<times> nat \<Rightarrow> obj_item" where
  "face_of t = (case t of (a, b, c) \<Rightarrow> FaceLine (a + 1) (b + 1) (c + 1))"

text \<open>
  A well-formed chunk stream from \<open>pos\<close> on: either \<open>pos\<close> is the end of the file, or a
  whole 12-byte header lies at \<open>pos\<close>, its size field is positive, the region of that size
  ends within the file, and the next chunk starts right where this region ends. Every stream
  whose chunks contain their own header (size at least 12) and tile the file is of this kind.
\<close>

function valid_chunks :: "byte list \<Rightarrow> nat \<Rightarrow> bool" where
  "valid_chunks data pos =
     (if pos = length data then True
      else if pos + 12 \<le> length data
              \<and> 0 < le_nat (slice data pos (pos + 4))
              \<and> pos + le_nat (slice data pos (pos + 4)) \<le> length data
      then valid_chunks data (pos + le_nat (slice data pos (pos + 4)))
      else False)"
  by pat_completeness auto
termination
  by (relation "measure (\<lambda>(data, pos). length data - pos)") auto

declare valid_chunks.simps [simp del]

text \<open>A valid file: the 16-byte header with the magic number, then a well-formed chunk stream.\<close>

definition valid_file :: "byte list \<Rightarrow> bool" where
  "valid_file data \<longleftrightarrow>
     16 \<le> length data \<and> le_nat (slice data 0 4) = NRIP \<and> valid_chunks data 16"

section \<open>Concrete inputs\<close>

text \<open>
  A file with the magic number and version 0, followed by one 12-byte chunk header whose
  size field is 0.
\<close>

definition zero_size_file :: "byte list" where
  "zero_size_file =
     [0x4E, 0x52, 0x49, 0x50, 0, 0, 0, 0, 0, 0, 0, 0, 0, 0, 0, 0,
      0, 0, 0, 0, 0, 0, 0, 0, 0, 0, 0, 0]"

text \<open>Eight bytes: the magic number and version 2, nothing else.\<close>

definition header_only :: "byte list" where
  "header_only = [0x4E, 0x52, 0x49, 0x50, 2, 0, 0, 0]"

text \<open>A header and one chunk of 13 bytes (tag 1, index 2, payload \<open>[7]\<close>).\<close>

definition one_chunk_file :: "byte list" where
  "one_chunk_file =
     [0x4E, 0x52, 0x49, 0x50, 1, 0, 0, 0, 0, 0, 0, 0, 0, 0, 0, 0,
      13, 0, 0, 0, 1, 0, 0, 0, 2, 0, 0, 0, 7]"

text \<open>
  A vertex payload with count 2 and stride 20: each record is 12 bytes of position and 8
  bytes of other attributes.
\<close>

definition strided_payload :: "byte list" where
  "strided_payload =
     [2, 0, 0, 0, 20, 0, 0, 0,
      1, 0, 0, 0, 2, 0, 0, 0, 3, 0, 0, 0, 0xAA, 0xAA, 0xAA, 0xAA, 0xAA, 0xAA, 0xAA, 0xAA,
      4, 0, 0, 0, 5, 0, 0, 0, 6, 0, 0, 0]"

text \<open>A vertex payload with count 3 and stride 0, and a single position of 12 bytes.\<close>

definition zero_stride_payload :: "byte list" where
  "zero_stride_payload =
     [3, 0, 0, 0, 0, 0, 0, 0,
      1, 0, 0, 0, 2, 0, 0, 0, 3, 0, 0, 0]"

text \<open>An index payload with count 7, topology 4 and the indices 0 to 6.\<close>

definition seven_indices_payload :: "byte list" where
  "seven_indices_payload =
     [7, 0, 0, 0, 4, 0, 0, 0,
      0, 0, 0, 0, 1, 0, 0, 0, 2, 0, 0, 0, 3, 0, 0, 0, 4, 0, 0, 0, 5, 0, 0, 0, 6, 0, 0, 0]"

text \<open>An index payload that announces 3 indices and holds two and a half.\<close>

definition truncated_indices_payload :: "byte list" where
  "truncated_indices_payload =
     [3, 0, 0, 0, 4, 0, 0, 0,
      9, 0, 0, 0, 8, 0, 0, 0, 7, 0]"

text \<open>
  A converter that has read a vertex chunk (\<open>strided_payload\<close>) and an index chunk
  (\<open>seven_indices_payload\<close>), and one that has read only a chunk with tag 1.
\<close>

definition mesh_converter :: converter where
  "mesh_converter =
     \<lparr>chunks = [(VERT, 0, 16, 52, strided_payload), (INDX, 0, 68, 48, seven_indices_payload)],
      nr_version = 1\<rparr>"


text \<open>A vertex payload with count 3 and stride 4: consecutive positions share 8 bytes.\<close>

definition overlapping_payload :: "byte list" where
  "overlapping_payload =
     [3, 0, 0, 0, 4, 0, 0, 0,
      1, 0, 0, 0, 2, 0, 0, 0, 3, 0, 0, 0, 4, 0, 0, 0, 5, 0, 0, 0]"





section \<open>The container reader\<close>

lemma length_slice: "length (slice data a b) = min b (length data) - a"
  by (simp add: slice_def)

lemma read_chunks_done:
  "\<not> pos < length data \<Longrightarrow> read_chunks data pos self = Some (Inr (), self)"
  by (subst read_chunks.simps) simp

lemma read_chunks_short:
  "length data < pos + 12 \<Longrightarrow> read_chunks data pos self = Some (Inr (), self)"
  by (subst read_chunks.simps) simp

lemma read_chunks_step:
  assumes "pos + 12 \<le> length data"
  shows "read_chunks data pos self =
    read_chunks data (pos + le_nat (slice data pos (pos + 4)))
      (self\<lparr>chunks := chunks self @
         [(le_nat (slice data (pos + 4) (pos + 8)), le_nat (slice data (pos + 8) (pos + 12)), pos,
           le_nat (slice data pos (pos + 4)),
           if le_nat (slice data pos (pos + 4)) > 12
           then slice data (pos + 12) (pos + le_nat (slice data pos (pos + 4))) else [])]\<rparr>)"
  using assms by (subst read_chunks.simps) (simp add: unpack_I_def length_slice)

lemma read_chunks_valid:
  "valid_chunks data pos \<Longrightarrow>
   \<exists>new. read_chunks data pos self = Some (Inr (), self\<lparr>chunks := chunks self @ new\<rparr>)
     \<and> sum_list (map chunk_raw_size new) = length data - pos"
proof (induction data pos arbitrary: self rule: valid_chunks.induct)
  case (1 data pos)
  show ?case
  proof (cases "pos = length data")
    case True
    then have "read_chunks data pos self = Some (Inr (), self\<lparr>chunks := chunks self @ []\<rparr>)"
      by (simp add: read_chunks_done)
    with True show ?thesis by (intro exI [of _ "[]"]) simp
  next
    case False
    define sz where "sz = le_nat (slice data pos (pos + 4))"
    from False "1.prems" have c: "pos + 12 \<le> length data" "0 < sz" "pos + sz \<le> length data"
      and v: "valid_chunks data (pos + sz)"
      unfolding sz_def by (subst (asm) valid_chunks.simps, simp split: if_splits)+
    define c where "c = (le_nat (slice data (pos + 4) (pos + 8)),
           le_nat (slice data (pos + 8) (pos + 12)), pos, sz,
           if sz > 12 then slice data (pos + 12) (pos + sz) else [])"
    define self' where "self' = self\<lparr>chunks := chunks self @ [c]\<rparr>"
    have step: "read_chunks data pos self = read_chunks data (pos + sz) self'"
      unfolding self'_def c_def sz_def by (rule read_chunks_step [OF c(1)])
    from "1.IH" [OF False _ v [unfolded sz_def], of self'] c
    obtain new where n: "read_chunks data (pos + sz) self'
          = Some (Inr (), self'\<lparr>chunks := chunks self' @ new\<rparr>)"
        "sum_list (map chunk_raw_size new) = length data - (pos + sz)"
      unfolding sz_def by auto
    have "read_chunks data pos self = Some (Inr (), self\<lparr>chunks := chunks self @ (c # new)\<rparr>)"
      using step n(1) by (simp add: self'_def)
    moreover have "sum_list (map chunk_raw_size (c # new)) = length data - pos"
      using n(2) c by (simp add: chunk_raw_size_def c_def)
    ultimately show ?thesis by blast
  qed
qed

text \<open>
  A header with size 0 keeps the cursor where it is: the loop reads the same header again,
  for ever.
\<close>

lemma read_chunks_stall:
  assumes "pos + 12 \<le> length data" "le_nat (slice data pos (pos + 4)) = 0"
  shows "read_chunks data pos self = None"
proof (rule ccontr)
  assume "read_chunks data pos self \<noteq> None"
  then obtain r where r: "read_chunks data pos self = Some r" by auto
  have "\<not> (data = data \<and> pos = pos)"
  proof (rule read_chunks.raw_induct
      [where P = "\<lambda>d p s y. \<not> (d = data \<and> p = pos)", OF _ r])
    fix rc d p s y
    assume ih: "\<And>d p s y. rc d p s = Some y \<Longrightarrow> \<not> (d = data \<and> p = pos)"
      and step: "(if p < length d then
        if p + 12 > length d then Some (Inr (), s)
        else
          case unpack_I (slice d p (p + 4)) of
            Inl e \<Rightarrow> Some (Inl e, s)
          | Inr raw_size \<Rightarrow>
          (case unpack_I (slice d (p + 4) (p + 8)) of
            Inl e \<Rightarrow> Some (Inl e, s)
          | Inr tag \<Rightarrow>
          (case unpack_I (slice d (p + 8) (p + 12)) of
            Inl e \<Rightarrow> Some (Inl e, s)
          | Inr idx \<Rightarrow>
            let chunk_data = (if raw_size > 12 then slice d (p + 12) (p + raw_size) else [])
            in rc d (p + raw_size)
                 (s\<lparr>chunks := chunks s @ [(tag, idx, p, raw_size, chunk_data)]\<rparr>)))
      else Some (Inr (), s)) = Some y"
    show "\<not> (d = data \<and> p = pos)"
    proof
      assume eq: "d = data \<and> p = pos"
      from step eq assms obtain s' where "rc data pos s' = Some y"
        by (simp add: unpack_I_def length_slice)
      from ih[OF this] show False by simp
    qed
  qed
  then show False by simp
qed

lemma magic_zero_size_file: "unpack_I (slice zero_size_file 0 4) = Inr NRIP"
  by (simp add: zero_size_file_def unpack_I_def slice_def NRIP_def)

text \<open>
  C1 (the claim: a chunk header whose size field is 0 makes parsing stop with a format
  error). On the file \<open>zero_size_file\<close> the code does the opposite: \<open>read_nr_file\<close>
  never returns, and so neither does \<open>convert_to_obj\<close>.
\<close>

theorem zero_size_chunk_never_returns:
  "read_nr_file zero_size_file self = None
   \<and> convert_to_obj env zero_size_file nr_file_path obj_file_path use_world_space self = None"
proof -
  have "read_chunks zero_size_file 16 s = None" for s
    by (rule read_chunks_stall) (simp_all add: zero_size_file_def slice_def)
  then have "read_nr_file zero_size_file s = None" for s
    by (simp add: read_nr_file_def magic_zero_size_file)
       (simp add: zero_size_file_def unpack_I_def slice_def)
  then show ?thesis by (simp add: convert_to_obj_def)
qed

text \<open>
  A buffer of 8 bytes with the right magic number is shorter than 16 bytes and is accepted:
  the loop from position 16 has nothing to read.
\<close>

theorem short_file_accepted_counterexample:
  "length header_only < 16
   \<and> read_nr_file header_only init = Some (Inr (), \<lparr>chunks = [], nr_version = 2\<rparr>)"
  by (simp add: header_only_def read_nr_file_def unpack_I_def slice_def NRIP_def init_def
      read_chunks_done)

text \<open>
  C2, amended: a buffer of fewer than 8 bytes, or one whose first four bytes are not the
  magic number, is rejected with an exception and the converter (its chunk list included) is
  left as it was. The exception is \<open>struct.error\<close> when the magic field is incomplete
  (fewer than 4 bytes), the \<open>ValueError\<close> of the magic check when four bytes are there
  and are not the magic number, and \<open>struct.error\<close> again when the magic number is right
  and the version field is incomplete (4 to 7 bytes); all three are raised before the chunk
  loop. A buffer of 8 to 15 bytes with the right magic number is accepted, with no chunk
  added.
\<close>

theorem read_nr_file_rejects:
  "(length data < 8 \<or> le_nat (slice data 0 4) \<noteq> NRIP \<longrightarrow>
      (\<exists>e. read_nr_file data self = Some (Inl e, self)))
   \<and> (length data < 4 \<longrightarrow> read_nr_file data self = Some (Inl StructError, self))
   \<and> (4 \<le> length data \<and> le_nat (slice data 0 4) \<noteq> NRIP \<longrightarrow>
      read_nr_file data self =
        Some (Inl (ValueError ''Not a valid NinjaRipper 2 file (missing NRIP magic)''), self))
   \<and> (4 \<le> length data \<and> length data < 8 \<and> le_nat (slice data 0 4) = NRIP \<longrightarrow>
      read_nr_file data self = Some (Inl StructError, self))
   \<and> (8 \<le> length data \<and> length data < 16 \<and> le_nat (slice data 0 4) = NRIP \<longrightarrow>
      read_nr_file data self = Some (Inr (), self\<lparr>nr_version := le_nat (slice data 4 8)\<rparr>))"
  by (auto simp: read_nr_file_def unpack_I_def length_slice read_chunks_done
      split: sum.splits)

theorem read_nr_file_rejects_witness:
  "length [1, 2, 3 :: byte] < 4
   \<and> read_nr_file [1, 2, 3] init = Some (Inl StructError, init)
   \<and> 4 \<le> length [1, 2, 3, 4 :: byte] \<and> le_nat (slice [1, 2, 3, 4] 0 4) \<noteq> NRIP
   \<and> read_nr_file [1, 2, 3, 4] init =
        Some (Inl (ValueError ''Not a valid NinjaRipper 2 file (missing NRIP magic)''), init)
   \<and> 4 \<le> length (take 7 header_only) \<and> length (take 7 header_only) < 8
   \<and> le_nat (slice (take 7 header_only) 0 4) = NRIP
   \<and> read_nr_file (take 7 header_only) init = Some (Inl StructError, init)
   \<and> 8 \<le> length header_only \<and> length header_only < 16
   \<and> le_nat (slice header_only 0 4) = NRIP
   \<and> read_nr_file header_only init = Some (Inr (), init\<lparr>nr_version := 2\<rparr>)"
  using read_nr_file_rejects [of "[1, 2, 3]" init]
    read_nr_file_rejects [of "[1, 2, 3, 4]" init]
    read_nr_file_rejects [of "take 7 header_only" init]
    read_nr_file_rejects [of header_only init]
  by (simp add: header_only_def slice_def NRIP_def)

text \<open>
  C4: on a valid file \<open>read_nr_file\<close> returns normally, and the size fields of the
  chunks it appends add up to the length of the file minus the 16 bytes of the header.
\<close>

theorem declared_sizes_sum:
  assumes "valid_file data"
  shows "\<exists>new. read_nr_file data self =
            Some (Inr (), self\<lparr>nr_version := le_nat (slice data 4 8),
                                chunks := chunks self @ new\<rparr>)
          \<and> sum_list (map chunk_raw_size new) = length data - 16"
proof -
  from assms have l: "16 \<le> length data" and m: "le_nat (slice data 0 4) = NRIP"
    and v: "valid_chunks data 16"
    by (simp_all add: valid_file_def)
  from read_chunks_valid [OF v, of "self\<lparr>nr_version := le_nat (slice data 4 8)\<rparr>"]
  obtain new where "read_chunks data 16 (self\<lparr>nr_version := le_nat (slice data 4 8)\<rparr>)
      = Some (Inr (), self\<lparr>nr_version := le_nat (slice data 4 8), chunks := chunks self @ new\<rparr>)"
    and s: "sum_list (map chunk_raw_size new) = length data - 16"
    by auto
  then have "read_nr_file data self =
      Some (Inr (), self\<lparr>nr_version := le_nat (slice data 4 8), chunks := chunks self @ new\<rparr>)"
    using l m by (simp add: read_nr_file_def unpack_I_def length_slice)
  with s show ?thesis by blast
qed

lemma valid_one_chunk_file: "valid_file one_chunk_file"
  unfolding valid_file_def
  apply (intro conjI)
    apply (simp add: one_chunk_file_def)
   apply (simp add: one_chunk_file_def slice_def NRIP_def)
  apply (subst valid_chunks.simps)
  apply (simp add: one_chunk_file_def slice_def)
  apply (subst valid_chunks.simps)
  apply simp
  done

theorem declared_sizes_sum_witness:
  "valid_file one_chunk_file
   \<and> (\<exists>new. read_nr_file one_chunk_file init =
            Some (Inr (), init\<lparr>nr_version := le_nat (slice one_chunk_file 4 8),
                                chunks := chunks init @ new\<rparr>)
          \<and> sum_list (map chunk_raw_size new) = length one_chunk_file - 16)"
  using declared_sizes_sum [OF valid_one_chunk_file, of init] valid_one_chunk_file by simp

section \<open>The vertex decoder\<close>

lemma slice_slice:
  "a + y \<le> c \<Longrightarrow> slice (slice d a c) x y = slice d (a + x) (a + y)"
  by (simp add: slice_def take_drop add.commute [of x a] add.commute [of y a])

lemma unpack_fff_slice:
  "pos + 12 \<le> length d \<Longrightarrow> unpack_fff (slice d pos (pos + 12)) = Inr (vertex_at d pos)"
  by (simp add: unpack_fff_def vertex_at_def length_slice slice_slice)

lemma upt_Suc_shift: "[0..<Suc n] = 0 # map Suc [0..<n]"
  by (simp add: upt_conv_Cons map_Suc_upt del: upt_Suc)

text \<open>The loop in closed form; in particular it never raises.\<close>

lemma vertex_loop_eq:
  "vertex_loop d st n pos acc =
     Inr (acc @ map (\<lambda>i. vertex_at d (pos + i * st))
                  (takeWhile (\<lambda>i. pos + i * st + 12 \<le> length d) [0..<n]))"
proof (induction n arbitrary: pos acc)
  case 0
  then show ?case by simp
next
  case (Suc n)
  show ?case
  proof (cases "pos + 12 \<le> length d")
    case True
    then show ?thesis
      by (simp add: unpack_fff_slice Suc.IH upt_Suc_shift takeWhile_map comp_def
          add.assoc del: upt_Suc)
  next
    case False
    then show ?thesis by (simp add: upt_Suc_shift del: upt_Suc)
  qed
qed

lemma parse_vertex_data_ref: "parse_vertex_data payload = Inr (decodeVertices_ref payload)"
  by (simp add: parse_vertex_data_def decodeVertices_ref_def unpack_I_def length_slice
      vertex_loop_eq Let_def)

lemma takeWhile_True: "takeWhile (\<lambda>i. True) xs = xs"
  by (induction xs) simp_all

lemma vertex_loop_length:
  "\<exists>vs. vertex_loop d st n pos [] = Inr vs \<and> length vs \<le> n"
proof -
  have "length (takeWhile (\<lambda>i. pos + i * st + 12 \<le> length d) [0..<n]) \<le> length [0..<n]"
    by (rule length_takeWhile_le)
  then show ?thesis by (simp add: vertex_loop_eq)
qed

text \<open>
  C3: \<open>parse_vertex_data\<close> returns normally on every payload, and what it returns is
  the reference definition \<open>decodeVertices_ref\<close>. With count 2 and stride 20 the second
  vertex is the one at offset 28 when the payload has the 40 bytes both records need, and a
  payload cut short between 20 and 39 bytes yields the first vertex alone, not an error.
\<close>

theorem parse_vertex_data_reference:
  "parse_vertex_data payload = Inr (decodeVertices_ref payload)
   \<and> (le_nat (slice payload 0 4) = 2 \<and> le_nat (slice payload 4 8) = 20
        \<and> 40 \<le> length payload \<longrightarrow>
      parse_vertex_data payload = Inr [vertex_at payload 8, vertex_at payload 28])
   \<and> (le_nat (slice payload 0 4) = 2 \<and> le_nat (slice payload 4 8) = 20
        \<and> 20 \<le> length payload \<and> length payload < 40 \<longrightarrow>
      parse_vertex_data payload = Inr [vertex_at payload 8])"
proof -
  have two: "[0..<2] = [0, Suc 0]"
    by (simp add: upt_conv_Cons numeral_2_eq_2)
  show ?thesis
    by (simp add: parse_vertex_data_ref) (simp add: decodeVertices_ref_def two)
qed

theorem parse_vertex_data_reference_witness:
  "le_nat (slice strided_payload 0 4) = 2 \<and> le_nat (slice strided_payload 4 8) = 20
   \<and> 40 \<le> length strided_payload
   \<and> parse_vertex_data strided_payload = Inr [(1, 2, 3), (4, 5, 6)]
   \<and> le_nat (slice (take 39 strided_payload) 0 4) = 2
   \<and> le_nat (slice (take 39 strided_payload) 4 8) = 20
   \<and> 20 \<le> length (take 39 strided_payload) \<and> length (take 39 strided_payload) < 40
   \<and> parse_vertex_data (take 39 strided_payload) = Inr [(1, 2, 3)]"
proof -
  have h: "le_nat (slice strided_payload 0 4) = 2 \<and> le_nat (slice strided_payload 4 8) = 20
      \<and> 40 \<le> length strided_payload"
    by (simp add: strided_payload_def slice_def)
  have h': "le_nat (slice (take 39 strided_payload) 0 4) = 2
      \<and> le_nat (slice (take 39 strided_payload) 4 8) = 20
      \<and> 20 \<le> length (take 39 strided_payload) \<and> length (take 39 strided_payload) < 40"
    by (simp add: strided_payload_def slice_def)
  have v: "vertex_at strided_payload 8 = (1, 2, 3)" "vertex_at strided_payload 28 = (4, 5, 6)"
    "vertex_at (take 39 strided_payload) 8 = (1, 2, 3)"
    by (simp_all add: strided_payload_def slice_def vertex_at_def unpack_f_def)
  from parse_vertex_data_reference [of strided_payload] h
  have "parse_vertex_data strided_payload
      = Inr [vertex_at strided_payload 8, vertex_at strided_payload 28]"
    by blast
  moreover from parse_vertex_data_reference [of "take 39 strided_payload"] h'
  have "parse_vertex_data (take 39 strided_payload)
      = Inr [vertex_at (take 39 strided_payload) 8]"
    by blast
  ultimately show ?thesis using h h' v by simp
qed

lemma takeWhile_upt_all:
  assumes "\<And>i. i < n \<Longrightarrow> P i"
  shows "takeWhile P [0..<n] = [0..<n]"
  using assms by (simp add: takeWhile_eq_all_conv)

lemma parse_vertex_data_closed:
  assumes "8 \<le> length payload"
  shows "parse_vertex_data payload =
     Inr (map (\<lambda>i. vertex_at payload (8 + i * le_nat (slice payload 4 8)))
            (takeWhile (\<lambda>i. 8 + i * le_nat (slice payload 4 8) + 12 \<le> length payload)
               [0..<le_nat (slice payload 0 4)]))"
  using assms
  by (simp add: parse_vertex_data_def unpack_I_def length_slice vertex_loop_eq)

text \<open>
  C10: whatever the stride, \<open>parse_vertex_data\<close> returns (the loop runs at most
  \<open>count\<close> times) and returns at most \<open>count\<close> vertices: vertex \<open>i\<close> is read at
  offset \<open>8 + i * stride\<close>, for the positions \<open>i\<close> below \<open>count\<close> up to the first
  one whose 12 bytes do not fit. With a stride below 12 the 12-byte ranges of consecutive
  vertices overlap; when the last of them fits, exactly \<open>count\<close> vertices are returned.
  With stride 0 and a payload of at least 20 bytes these are \<open>count\<close> copies of the vertex
  at bytes 8 to 19.
\<close>

theorem parse_vertex_data_small_stride:
  "(8 \<le> length payload \<longrightarrow>
      parse_vertex_data payload =
        Inr (map (\<lambda>i. vertex_at payload (8 + i * le_nat (slice payload 4 8)))
               (takeWhile (\<lambda>i. 8 + i * le_nat (slice payload 4 8) + 12 \<le> length payload)
                  [0..<le_nat (slice payload 0 4)])))
   \<and> (\<exists>vs. parse_vertex_data payload = Inr vs \<and> length vs \<le> le_nat (slice payload 0 4))
   \<and> (le_nat (slice payload 4 8) < 12 \<and> 1 \<le> le_nat (slice payload 0 4)
        \<and> 8 + (le_nat (slice payload 0 4) - 1) * le_nat (slice payload 4 8) + 12
            \<le> length payload \<longrightarrow>
      parse_vertex_data payload =
        Inr (map (\<lambda>i. vertex_at payload (8 + i * le_nat (slice payload 4 8)))
               [0..<le_nat (slice payload 0 4)])
      \<and> (\<forall>i. Suc i < le_nat (slice payload 0 4) \<longrightarrow>
             8 + Suc i * le_nat (slice payload 4 8) < 8 + i * le_nat (slice payload 4 8) + 12))
   \<and> (le_nat (slice payload 4 8) = 0 \<and> 20 \<le> length payload \<longrightarrow>
      parse_vertex_data payload =
        Inr (replicate (le_nat (slice payload 0 4)) (vertex_at payload 8)))"
proof -
  define count where "count = le_nat (slice payload 0 4)"
  define stride where "stride = le_nat (slice payload 4 8)"
  note closed = parse_vertex_data_closed [of payload, folded count_def stride_def]
  have "\<exists>vs. parse_vertex_data payload = Inr vs \<and> length vs \<le> count"
    using vertex_loop_length [of payload stride count 8]
    by (simp add: parse_vertex_data_def unpack_I_def length_slice count_def stride_def)
  moreover have "parse_vertex_data payload =
        Inr (map (\<lambda>i. vertex_at payload (8 + i * stride)) [0..<count])"
    if fit: "8 + (count - 1) * stride + 12 \<le> length payload" and pos: "1 \<le> count"
  proof -
    have "8 + i * stride + 12 \<le> length payload" if "i < count" for i
    proof -
      from that pos have "i \<le> count - 1" by simp
      then have "i * stride \<le> (count - 1) * stride" by (rule mult_le_mono1)
      with fit show ?thesis by linarith
    qed
    then have tw:
      "takeWhile (\<lambda>i. 8 + i * stride + 12 \<le> length payload) [0..<count] = [0..<count]"
      by (rule takeWhile_upt_all)
    from fit have "8 \<le> length payload" by simp
    from closed [OF this] show ?thesis by (simp only: tw)
  qed
  moreover have "8 + Suc i * stride < 8 + i * stride + 12" if "stride < 12" for i
    using that by simp
  moreover have "parse_vertex_data payload = Inr (replicate count (vertex_at payload 8))"
    if "stride = 0" "20 \<le> length payload"
    using that by (simp add: closed takeWhile_True map_replicate_const)
  ultimately show ?thesis
    using closed unfolding count_def stride_def by blast
qed

theorem parse_vertex_data_small_stride_witness:
  "le_nat (slice overlapping_payload 4 8) < 12 \<and> 1 \<le> le_nat (slice overlapping_payload 0 4)
   \<and> 8 + (le_nat (slice overlapping_payload 0 4) - 1) * le_nat (slice overlapping_payload 4 8)
        + 12 \<le> length overlapping_payload
   \<and> parse_vertex_data overlapping_payload = Inr [(1, 2, 3), (2, 3, 4), (3, 4, 5)]
   \<and> le_nat (slice zero_stride_payload 4 8) = 0 \<and> 20 \<le> length zero_stride_payload
   \<and> parse_vertex_data zero_stride_payload = Inr [(1, 2, 3), (1, 2, 3), (1, 2, 3)]"
proof -
  have c': "le_nat (slice overlapping_payload 0 4) = 3"
    and s': "le_nat (slice overlapping_payload 4 8) = 4"
    and l': "length overlapping_payload = 28"
    by (simp_all add: overlapping_payload_def slice_def)
  have h': "le_nat (slice overlapping_payload 4 8) < 12
      \<and> 1 \<le> le_nat (slice overlapping_payload 0 4)
      \<and> 8 + (le_nat (slice overlapping_payload 0 4) - 1)
             * le_nat (slice overlapping_payload 4 8) + 12 \<le> length overlapping_payload"
    by (simp add: c' s' l')
  have v': "vertex_at overlapping_payload 8 = (1, 2, 3)"
    "vertex_at overlapping_payload 12 = (2, 3, 4)"
    "vertex_at overlapping_payload 16 = (3, 4, 5)"
    by (simp_all add: overlapping_payload_def slice_def vertex_at_def unpack_f_def)
  have three: "[0..<3] = [0, 1, 2]"
    by (simp add: upt_conv_Cons numeral_3_eq_3)
  have h: "le_nat (slice zero_stride_payload 4 8) = 0 \<and> 20 \<le> length zero_stride_payload"
    by (simp add: zero_stride_payload_def slice_def)
  have c: "le_nat (slice zero_stride_payload 0 4) = Suc (Suc (Suc 0))"
    by (simp add: zero_stride_payload_def slice_def)
  have v: "vertex_at zero_stride_payload 8 = (1, 2, 3)"
    by (simp add: zero_stride_payload_def slice_def vertex_at_def unpack_f_def)
  from parse_vertex_data_small_stride [of overlapping_payload] h'
  have "parse_vertex_data overlapping_payload =
        Inr (map (\<lambda>i. vertex_at overlapping_payload
                         (8 + i * le_nat (slice overlapping_payload 4 8)))
               [0..<le_nat (slice overlapping_payload 0 4)])"
    by blast
  then have a: "parse_vertex_data overlapping_payload = Inr [(1, 2, 3), (2, 3, 4), (3, 4, 5)]"
    by (simp add: c' s' three v')
  from parse_vertex_data_small_stride [of zero_stride_payload] h
  have "parse_vertex_data zero_stride_payload =
      Inr (replicate (le_nat (slice zero_stride_payload 0 4)) (vertex_at zero_stride_payload 8))"
    by blast
  then have b: "parse_vertex_data zero_stride_payload = Inr [(1, 2, 3), (1, 2, 3), (1, 2, 3)]"
    by (simp add: c v)
  from h' a h b show ?thesis by blast
qed

section \<open>The index decoder\<close>

lemma unpack_I_slice:
  "pos + 4 \<le> length d \<Longrightarrow> unpack_I (slice d pos (pos + 4)) = Inr (le_nat (slice d pos (pos + 4)))"
  by (simp add: unpack_I_def length_slice)

lemma index_loop_eq:
  "index_loop d n pos acc =
     Inr (acc @ map (\<lambda>i. le_nat (slice d (pos + 4 * i) (pos + 4 * i + 4)))
                  (takeWhile (\<lambda>i. pos + 4 * i + 4 \<le> length d) [0..<n]))"
proof (induction n arbitrary: pos acc)
  case 0
  then show ?case by simp
next
  case (Suc n)
  show ?case
  proof (cases "pos + 4 \<le> length d")
    case True
    then show ?thesis
      by (simp add: unpack_I_slice Suc.IH upt_Suc_shift takeWhile_map comp_def
          add.assoc del: upt_Suc)
  next
    case False
    then show ?thesis by (simp add: upt_Suc_shift del: upt_Suc)
  qed
qed

lemma takeWhile_upt_Nil: "\<not> P 0 \<Longrightarrow> takeWhile P [0..<n] = []"
  by (cases n) (simp_all add: upt_Suc_shift del: upt_Suc)

lemma parse_index_data_ref: "parse_index_data payload = Inr (decodeIndices_ref payload)"
  by (simp add: parse_index_data_def decodeIndices_ref_def unpack_I_def length_slice
      index_loop_eq Let_def takeWhile_upt_Nil)

lemma slice_alt: "slice d a b = take (b - a) (drop a d)"
  by (simp add: slice_def drop_take)

lemma drop_with_topology:
  assumes "8 \<le> length payload" "length t = 4" "8 \<le> a"
  shows "drop a (with_topology payload t) = drop a payload"
proof -
  from assms have "drop a (with_topology payload t) = drop (a - 8) (drop 8 payload)"
    by (simp add: with_topology_def)
  with assms show ?thesis by simp
qed

lemma slice_with_topology:
  assumes "8 \<le> length payload" "length t = 4"
  shows "slice (with_topology payload t) 0 4 = slice payload 0 4"
    and "8 \<le> a \<Longrightarrow> slice (with_topology payload t) a b = slice payload a b"
    and "length (with_topology payload t) = length payload"
  using assms
  by (simp_all add: slice_alt drop_with_topology) (simp_all add: with_topology_def)

lemma decodeIndices_ref_topology:
  assumes "8 \<le> length payload" "length t = 4"
  shows "decodeIndices_ref (with_topology payload t) = decodeIndices_ref payload"
  by (simp add: decodeIndices_ref_def slice_with_topology [OF assms])

text \<open>
  C8: \<open>parse_index_data\<close> returns normally on every payload, and what it returns is
  the reference definition \<open>decodeIndices_ref\<close>: the count from offset 0, then the
  32-bit values from offset 8 on while fewer than count were read and four more bytes are
  there. The result does not change when the topology field is overwritten.
\<close>

theorem parse_index_data_reference:
  "parse_index_data payload = Inr (decodeIndices_ref payload)
   \<and> (8 \<le> length payload \<and> length t = 4 \<longrightarrow>
      parse_index_data (with_topology payload t) = parse_index_data payload)"
  by (simp add: parse_index_data_ref decodeIndices_ref_topology)

theorem parse_index_data_reference_witness:
  "8 \<le> length truncated_indices_payload \<and> length [1, 1, 1, 1 :: byte] = 4
   \<and> parse_index_data truncated_indices_payload = Inr [9, 8]
   \<and> parse_index_data (with_topology truncated_indices_payload [1, 1, 1, 1]) = Inr [9, 8]"
proof -
  have h: "8 \<le> length truncated_indices_payload \<and> length [1, 1, 1, 1 :: byte] = 4"
    by (simp add: truncated_indices_payload_def)
  have v: "decodeIndices_ref truncated_indices_payload = [9, 8]"
    by code_simp
  from parse_index_data_reference [of truncated_indices_payload "[1, 1, 1, 1]"] h
  have "parse_index_data truncated_indices_payload
        = Inr (decodeIndices_ref truncated_indices_payload)"
    and "parse_index_data (with_topology truncated_indices_payload [1, 1, 1, 1])
        = parse_index_data truncated_indices_payload"
    by blast+
  with h v show ?thesis by simp
qed

section \<open>Building the output\<close>

text \<open>The face loop from position \<open>i\<close> on writes the triples of the indices left there.\<close>

lemma face_lines_drop: "face_lines indices i = map face_of (triples (drop i indices))"
proof (induction indices i rule: face_lines.induct)
  case (1 indices i)
  show ?case
  proof (cases "i < length indices")
    case False
    then show ?thesis by (subst face_lines.simps) simp
  next
    case True
    note lt = this
    show ?thesis
    proof (cases "i + 2 < length indices")
      case True
      then have "drop i indices = indices ! i # indices ! (i + 1) # indices ! (i + 2)
                   # drop (i + 3) indices"
        by (simp add: Cons_nth_drop_Suc numeral_3_eq_3)
      with True lt "1.IH" show ?thesis
        by (subst face_lines.simps) (simp add: face_of_def)
    next
      case False
      with lt have "length (drop i indices) = 1 \<or> length (drop i indices) = 2"
        by auto
      then have "triples (drop i indices) = []"
        by (cases "drop i indices" rule: triples.cases) auto
      moreover from False have "face_lines indices (i + 3) = []"
        by (subst face_lines.simps) simp
      ultimately show ?thesis using False lt
        by (subst face_lines.simps) simp
    qed
  qed
qed

lemma length_triples: "length (triples xs) = length xs div 3"
  by (induction xs rule: triples.induct) simp_all

lemma list_of_length_7:
  assumes "length xs = 7"
  shows "xs = [xs ! 0, xs ! 1, xs ! 2, xs ! 3, xs ! 4, xs ! 5, xs ! 6]"
  using assms by (auto simp: list_eq_iff_nth_eq less_Suc_eq numeral_eq_Suc)

text \<open>What a successful \<open>build_obj\<close> has computed.\<close>

lemma build_obj_Inr:
  assumes "build_obj self nr_file_path use_world_space = Inr items"
  shows "\<exists>vert_chunk vertices indices.
           select_vert_chunk (find_chunks self VERT) use_world_space = Inr vert_chunk
         \<and> parse_vertex_data (chunk_data vert_chunk) = Inr vertices
         \<and> find_chunks self INDX \<noteq> []
         \<and> parse_index_data (chunk_data (find_chunks self INDX ! 0)) = Inr indices
         \<and> items = obj_header nr_file_path use_world_space @ map VertexLine vertices
                    @ [Text newline] @ face_lines indices 0"
  using assms
  by (auto simp: build_obj_def Let_def list_index_def split: if_splits sum.splits)

text \<open>
  C5: the faces written by \<open>convert_to_obj\<close> are the consecutive triples of the decoded
  index sequence (each index plus one, as the output format counts from 1); one or two
  indices left at the end give no face, so there are \<open>length indices div 3\<close> faces, and 7
  indices give the two faces of positions 0 to 2 and 3 to 5. The output file of a successful
  conversion ends with exactly these faces, for the indices decoded from the first index
  chunk.
\<close>

theorem faces_are_triples:
  "face_lines indices 0 = map face_of (triples indices)
   \<and> length (face_lines indices 0) = length indices div 3
   \<and> (length indices = 7 \<longrightarrow>
        face_lines indices 0 =
          [FaceLine (indices ! 0 + 1) (indices ! 1 + 1) (indices ! 2 + 1),
           FaceLine (indices ! 3 + 1) (indices ! 4 + 1) (indices ! 5 + 1)])
   \<and> (build_obj self nr_file_path use_world_space = Inr items \<longrightarrow>
        (\<exists>vertices decoded.
            parse_index_data (chunk_data (find_chunks self INDX ! 0)) = Inr decoded
          \<and> items = obj_header nr_file_path use_world_space @ map VertexLine vertices
                     @ [Text newline] @ map face_of (triples decoded)))"
proof -
  have a: "face_lines xs 0 = map face_of (triples xs)" for xs
    by (simp add: face_lines_drop)
  have b: "length (face_lines indices 0) = length indices div 3"
    by (simp add: a length_triples)
  have c: "face_lines indices 0 =
          [FaceLine (indices ! 0 + 1) (indices ! 1 + 1) (indices ! 2 + 1),
           FaceLine (indices ! 3 + 1) (indices ! 4 + 1) (indices ! 5 + 1)]"
    if "length indices = 7"
  proof -
    from list_of_length_7 [OF that]
    have "triples indices =
        triples [indices ! 0, indices ! 1, indices ! 2, indices ! 3, indices ! 4, indices ! 5,
                 indices ! 6]"
      by simp
    then show ?thesis by (simp add: a face_of_def)
  qed
  have d: "\<exists>vertices decoded.
            parse_index_data (chunk_data (find_chunks self INDX ! 0)) = Inr decoded
          \<and> items = obj_header nr_file_path use_world_space @ map VertexLine vertices
                     @ [Text newline] @ map face_of (triples decoded)"
    if "build_obj self nr_file_path use_world_space = Inr items"
    using build_obj_Inr [OF that] by (auto simp: a)
  from a b c d show ?thesis by blast
qed

lemma decode_seven: "parse_index_data seven_indices_payload = Inr [0, 1, 2, 3, 4, 5, 6]"
proof -
  have "decodeIndices_ref seven_indices_payload = [0, 1, 2, 3, 4, 5, 6]"
    by code_simp
  then show ?thesis by (simp add: parse_index_data_ref)
qed

lemma decode_strided: "parse_vertex_data strided_payload = Inr [(1, 2, 3), (4, 5, 6)]"
proof -
  have "decodeVertices_ref strided_payload = [(1, 2, 3), (4, 5, 6)]"
    by code_simp
  then show ?thesis by (simp add: parse_vertex_data_ref)
qed

lemma find_mesh_chunks:
  "find_chunks mesh_converter VERT = [(VERT, 0, 16, 52, strided_payload)]"
  "find_chunks mesh_converter INDX = [(INDX, 0, 68, 48, seven_indices_payload)]"
  by (simp_all add: find_chunks_def mesh_converter_def chunk_tag_def VERT_def INDX_def)

lemma build_obj_mesh:
  "build_obj mesh_converter ''a/b.nr'' True =
     Inr (obj_header ''a/b.nr'' True
          @ [VertexLine (1, 2, 3), VertexLine (4, 5, 6), Text newline,
             FaceLine 1 2 3, FaceLine 4 5 6])"
  by (simp add: build_obj_def find_mesh_chunks select_vert_chunk_def list_index_def
      chunk_data_def decode_seven decode_strided face_lines_drop face_of_def)

theorem faces_are_triples_witness:
  "length [0, 1, 2, 3, 4, 5, 6 :: nat] = 7
   \<and> face_lines [0, 1, 2, 3, 4, 5, 6] 0 = [FaceLine 1 2 3, FaceLine 4 5 6]
   \<and> build_obj mesh_converter ''a/b.nr'' True =
       Inr (obj_header ''a/b.nr'' True
            @ [VertexLine (1, 2, 3), VertexLine (4, 5, 6), Text newline,
               FaceLine 1 2 3, FaceLine 4 5 6])
   \<and> (\<exists>vertices decoded.
         parse_index_data (chunk_data (find_chunks mesh_converter INDX ! 0)) = Inr decoded
       \<and> obj_header ''a/b.nr'' True
            @ [VertexLine (1, 2, 3), VertexLine (4, 5, 6), Text newline,
               FaceLine 1 2 3, FaceLine 4 5 6]
          = obj_header ''a/b.nr'' True @ map VertexLine vertices
            @ [Text newline] @ map face_of (triples decoded))"
proof -
  have h: "length [0, 1, 2, 3, 4, 5, 6 :: nat] = 7"
    by simp
  note t = faces_are_triples [of "[0, 1, 2, 3, 4, 5, 6]" mesh_converter "''a/b.nr''" True
      "obj_header ''a/b.nr'' True
            @ [VertexLine (1, 2, 3), VertexLine (4, 5, 6), Text newline,
               FaceLine 1 2 3, FaceLine 4 5 6]"]
  from t h have "face_lines [0, 1, 2, 3, 4, 5, 6] 0 =
      [FaceLine ([0, 1, 2, 3, 4, 5, 6] ! 0 + 1) ([0, 1, 2, 3, 4, 5, 6] ! 1 + 1)
         ([0, 1, 2, 3, 4, 5, 6] ! 2 + 1),
       FaceLine ([0, 1, 2, 3, 4, 5, 6] ! 3 + 1) ([0, 1, 2, 3, 4, 5, 6] ! 4 + 1)
         ([0, 1, 2, 3, 4, 5, 6] ! 5 + 1)]"
    by blast
  then have "face_lines [0, 1, 2, 3, 4, 5, 6] 0 = [FaceLine 1 2 3, FaceLine 4 5 6]"
    by simp
  moreover from t build_obj_mesh
  have "\<exists>vertices decoded.
         parse_index_data (chunk_data (find_chunks mesh_converter INDX ! 0)) = Inr decoded
       \<and> obj_header ''a/b.nr'' True
            @ [VertexLine (1, 2, 3), VertexLine (4, 5, 6), Text newline,
               FaceLine 1 2 3, FaceLine 4 5 6]
          = obj_header ''a/b.nr'' True @ map VertexLine vertices
            @ [Text newline] @ map face_of (triples decoded)"
    by blast
  ultimately show ?thesis using h build_obj_mesh by blast
qed

section \<open>Choosing the vertex chunk, and conversions without geometry\<close>

text \<open>
  C6: on a non-empty list of vertex chunks the code takes the chunk at position 1 when
  world space is asked for and there are at least two chunks, and the chunk at position 0
  otherwise; it never raises. With a single chunk and world space asked for, that chunk is
  returned.
\<close>

theorem select_vert_chunk_policy:
  "(vert_chunks \<noteq> [] \<longrightarrow>
      select_vert_chunk vert_chunks use_world_space =
        Inr (if use_world_space \<and> 2 \<le> length vert_chunks
             then vert_chunks ! 1 else vert_chunks ! 0))
   \<and> select_vert_chunk [c] True = Inr c"
  by (auto simp: select_vert_chunk_def list_index_def)

theorem select_vert_chunk_policy_witness:
  "[(VERT, 0, 16, 12, [])] \<noteq> ([] :: chunk list)
   \<and> select_vert_chunk [(VERT, 0, 16, 12, [])] True = Inr (VERT, 0, 16, 12, [])
   \<and> select_vert_chunk [(VERT, 0, 16, 12, []), (VERT, 1, 28, 12, [])] True
       = Inr (VERT, 1, 28, 12, [])
   \<and> select_vert_chunk [(VERT, 0, 16, 12, []), (VERT, 1, 28, 12, [])] False
       = Inr (VERT, 0, 16, 12, [])"
  using select_vert_chunk_policy [of "[(VERT, 0, 16, 12, [])]" True]
    select_vert_chunk_policy [of "[(VERT, 0, 16, 12, []), (VERT, 1, 28, 12, [])]" True]
    select_vert_chunk_policy [of "[(VERT, 0, 16, 12, []), (VERT, 1, 28, 12, [])]" False]
  by simp

text \<open>When no \<open>write\<close> raises, the file holds every item.\<close>

lemma write_items_None: "write_items enc items = (None, written) \<Longrightarrow> written = items"
  by (induction items arbitrary: written) (auto split: if_splits prod.splits)

lemma write_items_writable:
  "list_all (writable enc) items \<Longrightarrow> write_items enc items = (None, items)"
  by (induction items) simp_all

text \<open>The path on which \<open>convert_to_obj\<close> returns \<open>True\<close>.\<close>

lemma convert_to_obj_success:
  assumes "read_nr_file data (self\<lparr>chunks := []\<rparr>) = Some (Inr (), self')"
    and "print_chunks (stdout_encodes env) (chunks self') = Inr ()"
    and "build_obj self' nr_file_path use_world_space = Inr items"
    and "list_all (writable (file_encodes env)) items"
    and "encodable (stdout_encodes env)
           (''Successfully converted '' @ nr_file_path @ '' to '' @ obj_file_path)"
  shows "convert_to_obj env data nr_file_path obj_file_path use_world_space self =
           Some \<lparr>success = True, diagnostic = None, obj_file = Some items, conv = self'\<rparr>"
  using assms by (simp add: convert_to_obj_def write_items_writable print_text_def)


lemma print_chunks_Inr_iff:
  "print_chunks enc cs = Inr () \<longleftrightarrow>
     (\<forall>chunk \<in> set cs. encodable enc (tag_to_string (chunk_tag chunk)))"
  by (induction cs) (auto simp: print_text_def)










section \<open>Reusing a converter\<close>

text \<open>
  After the reset of line 105 and the assignment of the version, nothing is left of the
  converter's earlier state.
\<close>

lemma reset_version:
  fixes self1 self2 :: converter
  shows "self1\<lparr>chunks := [], nr_version := v\<rparr> = self2\<lparr>chunks := [], nr_version := v\<rparr>"
  by (cases self1, cases self2) simp

lemma convert_to_obj_read_error:
  assumes "read_nr_file data (self\<lparr>chunks := []\<rparr>) = Some (Inl e, self\<lparr>chunks := []\<rparr>)"
  shows "map_option observable
           (convert_to_obj env data nr_file_path obj_file_path use_world_space self)
         = Some (False, Some e, None, [])"
  using assms by (simp add: convert_to_obj_def observable_def)

lemma convert_to_obj_cong:
  assumes "read_nr_file data (self1\<lparr>chunks := []\<rparr>) = read_nr_file data (self2\<lparr>chunks := []\<rparr>)"
  shows "convert_to_obj env data nr_file_path obj_file_path use_world_space self1
         = convert_to_obj env data nr_file_path obj_file_path use_world_space self2"
  using assms by (simp add: convert_to_obj_def)

text \<open>
  C9: two conversions of the same bytes, with the same paths and space selector and in the
  same environment, started on converters in any two states, agree on all that can be
  observed: both return or neither does, and they return the same flag, diagnostic, output
  file and chunk list.
\<close>

theorem convert_to_obj_no_leak:
  "map_option observable
     (convert_to_obj env data nr_file_path obj_file_path use_world_space self1)
   = map_option observable
       (convert_to_obj env data nr_file_path obj_file_path use_world_space self2)"
proof (cases "unpack_I (slice data 0 4)")
  case (Inl e)
  then have "read_nr_file data (s\<lparr>chunks := []\<rparr>) = Some (Inl e, s\<lparr>chunks := []\<rparr>)"
    for s :: converter
    by (simp add: read_nr_file_def)
  then show ?thesis by (simp add: convert_to_obj_read_error)
next
  case magic: (Inr magic)
  show ?thesis
  proof (cases "magic \<noteq> NRIP")
    case True
    with magic have "read_nr_file data (s\<lparr>chunks := []\<rparr>) =
        Some (Inl (ValueError ''Not a valid NinjaRipper 2 file (missing NRIP magic)''),
              s\<lparr>chunks := []\<rparr>)"
      for s :: converter
      by (simp add: read_nr_file_def)
    then show ?thesis by (simp add: convert_to_obj_read_error)
  next
    case False
    show ?thesis
    proof (cases "unpack_I (slice data 4 8)")
      case (Inl e)
      with magic False
      have "read_nr_file data (s\<lparr>chunks := []\<rparr>) = Some (Inl e, s\<lparr>chunks := []\<rparr>)"
        for s :: converter
        by (simp add: read_nr_file_def)
      then show ?thesis by (simp add: convert_to_obj_read_error)
    next
      case (Inr version)
      with magic False
      have r: "read_nr_file data (s\<lparr>chunks := []\<rparr>)
          = read_chunks data 16 (s\<lparr>chunks := [], nr_version := version\<rparr>)"
        for s :: converter
        by (simp add: read_nr_file_def)
      have "read_nr_file data (self1\<lparr>chunks := []\<rparr>)
          = read_chunks data 16 (self1\<lparr>chunks := [], nr_version := version\<rparr>)"
        by (rule r)
      also have "\<dots> = read_chunks data 16 (self2\<lparr>chunks := [], nr_version := version\<rparr>)"
        by (rule arg_cong [OF reset_version])
      also have "\<dots> = read_nr_file data (self2\<lparr>chunks := []\<rparr>)"
        by (rule r [symmetric])
      finally have "read_nr_file data (self1\<lparr>chunks := []\<rparr>)
          = read_nr_file data (self2\<lparr>chunks := []\<rparr>)" .
      then show ?thesis by (rule arg_cong [OF convert_to_obj_cong])
    qed
  qed
qed

end
